theory Spec2Isabelle
  imports Main
begin

section \<open>Host-language strings\<close>

text \<open>
  The component works on JavaScript strings. They are modelled as \<^typ>\<open>string\<close>; a
  character stands for a code unit below 256, which covers the ASCII framing of the
  wire format (\<open>data: \<close>, \<open>[DONE]\<close>, the line feed). The functions below are the
  string methods \<open>handleSubmit\<close> calls: \<open>trim\<close>, \<open>startsWith\<close>, \<open>slice\<close> and
  \<open>split\<close>.
\<close>

definition nl :: char where
  "nl = CHR 0x0A"

definition js_whitespace :: "char \<Rightarrow> bool" where
  \<comment> \<open>white space and line terminators of ECMAScript among the code units below 256\<close>
  "js_whitespace c \<longleftrightarrow>
     c = CHR 0x09 \<or> c = CHR 0x0A \<or> c = CHR 0x0B \<or> c = CHR 0x0C \<or> c = CHR 0x0D \<or>
     c = CHR 0x20 \<or> c = CHR 0xA0"

definition trim :: "string \<Rightarrow> string" where
  "trim s = rev (dropWhile js_whitespace (rev (dropWhile js_whitespace s)))"

definition startsWith :: "string \<Rightarrow> string \<Rightarrow> bool" where
  "startsWith s p \<longleftrightarrow> take (length p) s = p"

definition slice :: "nat \<Rightarrow> string \<Rightarrow> string" where
  "slice n s = drop n s"

fun js_split :: "char \<Rightarrow> string \<Rightarrow> string list" where
  \<comment> \<open>\<open>s.split(sep)\<close> for a one-character separator: never the empty array\<close>
  "js_split sep [] = [[]]"
| "js_split sep (c # cs) =
     (if c = sep then [] # js_split sep cs
      else (case js_split sep cs of [] \<Rightarrow> [[c]] | l # ls \<Rightarrow> (c # l) # ls))"

section \<open>Payloads, exceptions and component state\<close>

text \<open>
  \<open>interface StreamData { content?: string; done?: boolean; error?: string }\<close>: an
  absent field is \<open>None\<close>. The field \<open>done\<close> is written \<open>done'\<close>.
\<close>

record StreamData =
  content :: "string option"
  done' :: "bool option"
  error :: "string option"

text \<open>An exception object, as far as the code looks at it: its \<open>name\<close>.\<close>

datatype js_error = JsError (name: string)

text \<open>
  \<open>JSON.parse\<close> belongs to the platform and is a parameter of the model: it maps the
  payload text to the parsed payload, or to the exception the \<open>try\<close> block ends with
  (the \<open>SyntaxError\<close> of \<open>JSON.parse\<close>, or the \<open>TypeError\<close> of reading a field of
  \<open>null\<close>).
\<close>

type_synonym json_parse = "string \<Rightarrow> js_error + StreamData"

text \<open>
  The \<open>useState\<close> hooks of the component: \<open>query\<close>, \<open>response\<close> and \<open>loading\<close>.
  \<open>info\<close> is only displayed, and console output is not part of the state.
\<close>

record hooks =
  query :: string
  response :: string
  loading :: bool

definition setLoading :: "bool \<Rightarrow> hooks \<Rightarrow> hooks" where
  "setLoading b h = h\<lparr>loading := b\<rparr>"

definition setResponse :: "(string \<Rightarrow> string) \<Rightarrow> hooks \<Rightarrow> hooks" where
  \<comment> \<open>the updater form \<open>setResponse(prev => ...)\<close>; \<open>setResponse(v)\<close> is \<open>setResponse (\<lambda>_. v)\<close>\<close>
  "setResponse f h = h\<lparr>response := f (response h)\<rparr>"

text \<open>How the body of the \<open>for\<close> loop over the lines ends.\<close>

datatype ctl = Next | Break | Return

section \<open>SECAnalyzer.tsx: one line of the stream\<close>

definition error_notice :: "string \<Rightarrow> string" where
  \<comment> \<open>the template \<open>`\n\nError: ${data.error}`\<close>\<close>
  "error_notice m = nl # nl # ''Error: '' @ m"

definition try_data_tsx :: "json_parse \<Rightarrow> string \<Rightarrow> hooks \<Rightarrow> js_error + (ctl \<times> hooks)" where
  \<comment> \<open>the \<open>try\<close> block of a line that starts with \<open>data: \<close>\<close>
  "try_data_tsx parse line h =
     (let dataStr = trim (slice 6 line) in
      if dataStr = ''[DONE]'' then Inr (Return, setLoading False h)
      else
        (case parse dataStr of
           Inl e \<Rightarrow> Inl e
         | Inr data \<Rightarrow>
             if done' data = Some True then Inr (Return, setLoading False h)
             else
               (case error data of
                  Some (c # m) \<Rightarrow>
                    Inr (Return,
                         setLoading False (setResponse (\<lambda>prev. prev @ error_notice (c # m)) h))
                | _ \<Rightarrow>
                    (case content data of
                       Some (c # m) \<Rightarrow> Inr (Next, setResponse (\<lambda>prev. prev @ c # m) h)
                     | _ \<Rightarrow> Inr (Next, h)))))"

definition process_line_tsx :: "json_parse \<Rightarrow> string \<Rightarrow> hooks \<Rightarrow> ctl \<times> hooks" where
  \<comment> \<open>the body of \<open>for (const line of lines)\<close>; the \<open>catch\<close> only logs\<close>
  "process_line_tsx parse line h =
     (if startsWith line ''data: '' then
        (case try_data_tsx parse line h of Inl parseError \<Rightarrow> (Next, h) | Inr r \<Rightarrow> r)
      else if trim line = [] then (Next, h)
      else if startsWith line ''event:'' \<or> startsWith line ''id:'' \<or> startsWith line ''retry:''
        then (Next, h)
      else (Next, h))"

fun process_lines_tsx :: "json_parse \<Rightarrow> string list \<Rightarrow> hooks \<Rightarrow> ctl \<times> hooks" where
  "process_lines_tsx parse [] h = (Next, h)"
| "process_lines_tsx parse (line # lines) h =
     (case process_line_tsx parse line h of
        (Next, h') \<Rightarrow> process_lines_tsx parse lines h'
      | r \<Rightarrow> r)"

section \<open>Platform: text decoder, fetch and the stream reader\<close>

text \<open>
  \<open>TextDecoder\<close> is the platform's. It consumes one byte at a time and keeps its state
  between calls made with \<open>{ stream: true }\<close>; a call without that option starts from
  the initial state and flushes at the end. The decoder is a parameter of the model; a
  byte is a \<^typ>\<open>char\<close> and a chunk (\<open>Uint8Array\<close>) a list of them.
\<close>

record 'd decoder =
  dec_init :: 'd
  dec_step :: "'d \<Rightarrow> char \<Rightarrow> 'd \<times> string"
  dec_flush :: "'d \<Rightarrow> string"

fun decode_stream :: "'d decoder \<Rightarrow> 'd \<Rightarrow> string \<Rightarrow> 'd \<times> string" where
  \<comment> \<open>\<open>decoder.decode(value, { stream: true })\<close> in decoder state \<open>d\<close>\<close>
  "decode_stream D d [] = (d, [])"
| "decode_stream D d (b # bs) =
     (case dec_step D d b of
        (d1, out1) \<Rightarrow> (case decode_stream D d1 bs of (d2, out2) \<Rightarrow> (d2, out1 @ out2)))"

definition decode_whole :: "'d decoder \<Rightarrow> string \<Rightarrow> string" where
  \<comment> \<open>\<open>decoder.decode(value)\<close>\<close>
  "decode_whole D bs =
     (case decode_stream D (dec_init D) bs of (d, out) \<Rightarrow> out @ dec_flush D d)"

text \<open>
  What the two \<open>await\<close>s of \<open>handleSubmit\<close> resume with: \<open>fetch\<close> resolves to a
  response (\<open>response.ok\<close>, and whether \<open>response.body\<close> is there) or rejects;
  \<open>reader.read()\<close> resolves to a chunk or to \<open>done\<close>, or rejects.
\<close>

datatype fetch_result = Response bool bool | FetchRejected js_error

datatype read_result = Chunk string | EndOfStream | ReadRejected js_error

definition sorry_message :: string where
  "sorry_message = ''Sorry, there was an error processing your request. Please try again.''"

section \<open>SECAnalyzer.tsx: handleSubmit\<close>

text \<open>
  An invocation of \<open>handleSubmit\<close> is suspended at \<open>await fetch(...)\<close> or at
  \<open>await reader.read()\<close>, or it has returned. A suspended invocation keeps its locals:
  the controller whose signal it passed to \<open>fetch\<close>, the decoder and \<open>buffer\<close>.
\<close>

datatype 'd task = AwaitFetch nat | AwaitRead nat 'd string | Settled

definition catch_finally_tsx :: "js_error \<Rightarrow> hooks \<Rightarrow> hooks" where
  \<comment> \<open>the outer \<open>catch (error)\<close> followed by the outer \<open>finally\<close>\<close>
  "catch_finally_tsx e h =
     setLoading False
       (if name e \<noteq> ''AbortError'' then setResponse (\<lambda>_. sorry_message) h else h)"

definition after_fetch_tsx :: "'d decoder \<Rightarrow> nat \<Rightarrow> fetch_result \<Rightarrow> hooks \<Rightarrow> 'd task \<times> hooks" where
  "after_fetch_tsx D c r h =
     (case r of
        FetchRejected e \<Rightarrow> (Settled, catch_finally_tsx e h)
      | Response ok body \<Rightarrow>
          if \<not> ok then (Settled, catch_finally_tsx (JsError ''Error'') h)
          else if \<not> body then (Settled, catch_finally_tsx (JsError ''Error'') h)
          else (AwaitRead c (dec_init D) [], h))"

definition after_read_tsx ::
  "json_parse \<Rightarrow> 'd decoder \<Rightarrow> nat \<Rightarrow> 'd \<Rightarrow> string \<Rightarrow> read_result \<Rightarrow> hooks \<Rightarrow> 'd task \<times> hooks" where
  \<comment> \<open>one turn of \<open>while (true)\<close>; every way out passes the outer \<open>finally\<close>\<close>
  "after_read_tsx parse D c d buffer r h =
     (case r of
        EndOfStream \<Rightarrow> (Settled, setLoading False h)
      | ReadRejected e \<Rightarrow> (Settled, catch_finally_tsx e h)
      | Chunk v \<Rightarrow>
          (case decode_stream D d v of
             (d', chunk) \<Rightarrow>
               (let lines = js_split nl (buffer @ chunk);
                    buffer' = (if lines = [] then [] else last lines)
                in case process_lines_tsx parse (butlast lines) h of
                     (Next, h') \<Rightarrow> (AwaitRead c d' buffer', h')
                   | (_, h') \<Rightarrow> (Settled, setLoading False h'))))"

fun run_reads_tsx ::
  "json_parse \<Rightarrow> 'd decoder \<Rightarrow> read_result list \<Rightarrow> 'd task \<times> hooks \<Rightarrow> 'd task \<times> hooks" where
  \<comment> \<open>the read loop of one invocation, fed the results of its reads in order\<close>
  "run_reads_tsx parse D [] th = th"
| "run_reads_tsx parse D (r # rs) (AwaitRead c d buffer, h) =
     run_reads_tsx parse D rs (after_read_tsx parse D c d buffer r h)"
| "run_reads_tsx parse D (r # rs) (t, h) = (t, h)"

text \<open>
  The component with its requests: the hooks, \<open>abortControllerRef\<close> (the number of the
  controller it holds, \<open>None\<close> for \<open>null\<close>), the \<open>signal.aborted\<close> flag of every
  \<open>AbortController\<close> created so far, and the invocations of \<open>handleSubmit\<close> that got
  past the guard. \<open>eventSourceRef\<close> is never assigned, so it stays \<open>null\<close> and its
  \<open>close()\<close> is never reached.
\<close>

record 'd world =
  ui :: hooks
  abortControllerRef :: "nat option"
  controllers :: "bool list"
  tasks :: "'d task list"

definition handleSubmit_tsx :: "'d world \<Rightarrow> 'd world" where
  \<comment> \<open>from the call up to \<open>await fetch(...)\<close>\<close>
  "handleSubmit_tsx w =
     (if trim (query (ui w)) = [] then w
      else
        (let h = setResponse (\<lambda>_. []) (setLoading True (ui w));
             cs = (case abortControllerRef w of
                     Some c \<Rightarrow> (controllers w)[c := True]
                   | None \<Rightarrow> controllers w);
             c' = length cs
         in w\<lparr>ui := h, abortControllerRef := Some c', controllers := cs @ [False],
              tasks := tasks w @ [AwaitFetch c']\<rparr>))"

text \<open>
  The event loop. The user acts on the form, or the platform settles the promise a
  suspended invocation awaits.

  \<open>Type q\<close> is a change of the textarea or a click on an example button: both end in
  \<open>setQuery(q)\<close>. \<open>Submit\<close> is the Enter key in the textarea or a click on the submit
  button: both end in \<open>handleSubmit\<close> (the button is moreover disabled on a blank query,
  where \<open>handleSubmit\<close> returns at once). The textarea, the submit button and the
  example buttons are rendered with \<open>disabled={loading}\<close>: while \<open>loading\<close> is true
  they ignore the user, and the component stays as it is.

  Once a controller is aborted, the promise of the request that carries its signal
  rejects with an \<open>AbortError\<close>, and without an abort no \<open>AbortError\<close> arises:
  \<open>settles\<close> says so. A settlement that has no awaiting invocation, or that the signal
  excludes, cannot occur (\<open>None\<close>).
\<close>

datatype event =
  Type string | Submit | FetchSettled nat fetch_result | ReadSettled nat read_result

definition settles :: "bool \<Rightarrow> js_error option \<Rightarrow> bool" where
  "settles aborted rejection \<longleftrightarrow>
     (case rejection of
        Some e \<Rightarrow> (name e = ''AbortError'') = aborted
      | None \<Rightarrow> \<not> aborted)"

definition fetch_rejection :: "fetch_result \<Rightarrow> js_error option" where
  "fetch_rejection r = (case r of FetchRejected e \<Rightarrow> Some e | _ \<Rightarrow> None)"

definition read_rejection :: "read_result \<Rightarrow> js_error option" where
  "read_rejection r = (case r of ReadRejected e \<Rightarrow> Some e | _ \<Rightarrow> None)"

definition resume_tsx ::
  "json_parse \<Rightarrow> 'd decoder \<Rightarrow> nat \<Rightarrow> fetch_result + read_result \<Rightarrow> 'd world \<Rightarrow> 'd world option" where
  "resume_tsx parse D i r w =
     (if i < length (tasks w) then
        (case (tasks w ! i, r) of
           (AwaitFetch c, Inl fr) \<Rightarrow>
             if c < length (controllers w) \<and> settles (controllers w ! c) (fetch_rejection fr) then
               (case after_fetch_tsx D c fr (ui w) of
                  (t, h) \<Rightarrow> Some (w\<lparr>ui := h, tasks := (tasks w)[i := t]\<rparr>))
             else None
         | (AwaitRead c d buffer, Inr rr) \<Rightarrow>
             if c < length (controllers w) \<and> settles (controllers w ! c) (read_rejection rr) then
               (case after_read_tsx parse D c d buffer rr (ui w) of
                  (t, h) \<Rightarrow> Some (w\<lparr>ui := h, tasks := (tasks w)[i := t]\<rparr>))
             else None
         | _ \<Rightarrow> None)
      else None)"

definition deliver_tsx :: "json_parse \<Rightarrow> 'd decoder \<Rightarrow> event \<Rightarrow> 'd world \<Rightarrow> 'd world option" where
  "deliver_tsx parse D ev w =
     (case ev of
        Type q \<Rightarrow> Some (if loading (ui w) then w else w\<lparr>ui := (ui w)\<lparr>query := q\<rparr>\<rparr>)
      | Submit \<Rightarrow> Some (if loading (ui w) then w else handleSubmit_tsx w)
      | FetchSettled i fr \<Rightarrow> resume_tsx parse D i (Inl fr) w
      | ReadSettled i rr \<Rightarrow> resume_tsx parse D i (Inr rr) w)"



section \<open>SECAnalyzer.jsx: handleSubmit\<close>

text \<open>
  The JavaScript file has no abort controller, no \<open>[DONE]\<close> sentinel, no \<open>error\<close>
  field and no carry-over buffer; its \<open>break\<close> leaves the \<open>for\<close> loop only, and it has
  no \<open>finally\<close>.
\<close>

definition try_data_jsx :: "json_parse \<Rightarrow> string \<Rightarrow> hooks \<Rightarrow> js_error + (ctl \<times> hooks)" where
  "try_data_jsx parse line h =
     (case parse (slice 6 line) of
        Inl e \<Rightarrow> Inl e
      | Inr data \<Rightarrow>
          if done' data = Some True then Inr (Break, setLoading False h)
          else
            (case content data of
               Some (c # m) \<Rightarrow> Inr (Next, setResponse (\<lambda>prev. prev @ c # m) h)
             | _ \<Rightarrow> Inr (Next, h)))"

definition process_line_jsx :: "json_parse \<Rightarrow> string \<Rightarrow> hooks \<Rightarrow> ctl \<times> hooks" where
  "process_line_jsx parse line h =
     (if startsWith line ''data: '' then
        (case try_data_jsx parse line h of Inl err \<Rightarrow> (Next, h) | Inr r \<Rightarrow> r)
      else (Next, h))"

fun process_lines_jsx :: "json_parse \<Rightarrow> string list \<Rightarrow> hooks \<Rightarrow> ctl \<times> hooks" where
  "process_lines_jsx parse [] h = (Next, h)"
| "process_lines_jsx parse (line # lines) h =
     (case process_line_jsx parse line h of
        (Next, h') \<Rightarrow> process_lines_jsx parse lines h'
      | r \<Rightarrow> r)"

datatype jsx_task = JsxAwaitFetch | JsxAwaitRead | JsxSettled

definition catch_jsx :: "hooks \<Rightarrow> hooks" where
  "catch_jsx h = setLoading False (setResponse (\<lambda>_. sorry_message) h)"

definition after_fetch_jsx :: "fetch_result \<Rightarrow> hooks \<Rightarrow> jsx_task \<times> hooks" where
  \<comment> \<open>\<open>response.body.getReader()\<close> on a missing body raises a \<open>TypeError\<close>\<close>
  "after_fetch_jsx r h =
     (case r of
        FetchRejected e \<Rightarrow> (JsxSettled, catch_jsx h)
      | Response ok body \<Rightarrow>
          if \<not> ok then (JsxSettled, catch_jsx h)
          else if \<not> body then (JsxSettled, catch_jsx h)
          else (JsxAwaitRead, h))"

definition after_read_jsx ::
  "json_parse \<Rightarrow> 'd decoder \<Rightarrow> read_result \<Rightarrow> hooks \<Rightarrow> jsx_task \<times> hooks" where
  \<comment> \<open>one turn of \<open>while (true)\<close>: only \<open>done\<close> of the read and an exception leave it\<close>
  "after_read_jsx parse D r h =
     (case r of
        EndOfStream \<Rightarrow> (JsxSettled, h)
      | ReadRejected e \<Rightarrow> (JsxSettled, catch_jsx h)
      | Chunk v \<Rightarrow>
          (case process_lines_jsx parse (js_split nl (decode_whole D v)) h of
             (_, h') \<Rightarrow> (JsxAwaitRead, h')))"

fun run_reads_jsx ::
  "json_parse \<Rightarrow> 'd decoder \<Rightarrow> read_result list \<Rightarrow> jsx_task \<times> hooks \<Rightarrow> jsx_task \<times> hooks" where
  "run_reads_jsx parse D [] th = th"
| "run_reads_jsx parse D (r # rs) (JsxAwaitRead, h) =
     run_reads_jsx parse D rs (after_read_jsx parse D r h)"
| "run_reads_jsx parse D (r # rs) (t, h) = (t, h)"

record jsx_world =
  jsx_ui :: hooks
  jsx_tasks :: "jsx_task list"

definition handleSubmit_jsx :: "jsx_world \<Rightarrow> jsx_world" where
  \<comment> \<open>from the call up to \<open>await fetch(...)\<close>\<close>
  "handleSubmit_jsx w =
     (if trim (query (jsx_ui w)) = [] then w
      else w\<lparr>jsx_ui := setResponse (\<lambda>_. []) (setLoading True (jsx_ui w)),
             jsx_tasks := jsx_tasks w @ [JsxAwaitFetch]\<rparr>)"

section \<open>Reference instances of the platform parameters\<close>

text \<open>
  Concrete runs need a concrete decoder and a concrete parser. \<open>ascii_decoder\<close> is the
  UTF-8 decoder on ASCII bytes: every byte is its own character and nothing is held
  back. \<open>flat_parse\<close> reads the payloads of the wire format: one JSON object whose
  members are unescaped strings, \<open>true\<close>, \<open>false\<close> or \<open>null\<close>, with JSON white space
  between the tokens and the last of two equal keys winning. On such a text it is
  \<open>JSON.parse\<close> seen through \<open>StreamData\<close>; every other text it rejects.
\<close>

definition ascii_decoder :: "unit decoder" where
  "ascii_decoder = \<lparr>dec_init = (), dec_step = (\<lambda>d b. (d, [b])), dec_flush = (\<lambda>d. [])\<rparr>"

datatype json_value = JString string | JBool bool | JNull

datatype scan =
    AtStart | AtFirstKey | AtKey | InKey string | AtColon string | AtValue string
  | InString string string | InLiteral string string json_value | AfterValue | AtEnd | Reject

definition json_ws :: "char \<Rightarrow> bool" where
  "json_ws c \<longleftrightarrow> c = CHR 0x20 \<or> c = CHR 0x09 \<or> c = CHR 0x0A \<or> c = CHR 0x0D"

definition plain_char :: "char \<Rightarrow> bool" where
  \<comment> \<open>allowed inside a string as it is: no quote, no backslash, no control character\<close>
  "plain_char c \<longleftrightarrow> c \<noteq> CHR 0x22 \<and> c \<noteq> CHR 0x5C \<and> (32::nat) \<le> of_char c"

fun scan_step ::
  "scan \<times> (string \<times> json_value) list \<Rightarrow> char \<Rightarrow> scan \<times> (string \<times> json_value) list" where
  "scan_step (AtStart, ms) c =
     (if json_ws c then (AtStart, ms) else if c = CHR ''{'' then (AtFirstKey, ms)
      else (Reject, ms))"
| "scan_step (AtFirstKey, ms) c =
     (if json_ws c then (AtFirstKey, ms) else if c = CHR 0x22 then (InKey [], ms)
      else if c = CHR ''}'' then (AtEnd, ms) else (Reject, ms))"
| "scan_step (AtKey, ms) c =
     (if json_ws c then (AtKey, ms) else if c = CHR 0x22 then (InKey [], ms)
      else (Reject, ms))"
| "scan_step (InKey k, ms) c =
     (if c = CHR 0x22 then (AtColon k, ms) else if plain_char c then (InKey (k @ [c]), ms)
      else (Reject, ms))"
| "scan_step (AtColon k, ms) c =
     (if json_ws c then (AtColon k, ms) else if c = CHR '':'' then (AtValue k, ms)
      else (Reject, ms))"
| "scan_step (AtValue k, ms) c =
     (if json_ws c then (AtValue k, ms)
      else if c = CHR 0x22 then (InString k [], ms)
      else if c = CHR ''t'' then (InLiteral k ''rue'' (JBool True), ms)
      else if c = CHR ''f'' then (InLiteral k ''alse'' (JBool False), ms)
      else if c = CHR ''n'' then (InLiteral k ''ull'' JNull, ms)
      else (Reject, ms))"
| "scan_step (InString k v, ms) c =
     (if c = CHR 0x22 then (AfterValue, ms @ [(k, JString v)])
      else if plain_char c then (InString k (v @ [c]), ms)
      else (Reject, ms))"
| "scan_step (InLiteral k [] v, ms) c = (Reject, ms)"
| "scan_step (InLiteral k [r] v, ms) c =
     (if c = r then (AfterValue, ms @ [(k, v)]) else (Reject, ms))"
| "scan_step (InLiteral k (r # rs) v, ms) c =
     (if c = r then (InLiteral k rs v, ms) else (Reject, ms))"
| "scan_step (AfterValue, ms) c =
     (if json_ws c then (AfterValue, ms) else if c = CHR '','' then (AtKey, ms)
      else if c = CHR ''}'' then (AtEnd, ms) else (Reject, ms))"
| "scan_step (AtEnd, ms) c = (if json_ws c then (AtEnd, ms) else (Reject, ms))"
| "scan_step (Reject, ms) c = (Reject, ms)"

definition string_field :: "(string \<times> json_value) list \<Rightarrow> string \<Rightarrow> string option" where
  "string_field ms k = (case map_of (rev ms) k of Some (JString s) \<Rightarrow> Some s | _ \<Rightarrow> None)"

definition bool_field :: "(string \<times> json_value) list \<Rightarrow> string \<Rightarrow> bool option" where
  "bool_field ms k = (case map_of (rev ms) k of Some (JBool b) \<Rightarrow> Some b | _ \<Rightarrow> None)"

definition flat_parse :: json_parse where
  "flat_parse s =
     (case foldl scan_step (AtStart, []) s of
        (AtEnd, ms) \<Rightarrow>
          Inr \<lparr>content = string_field ms ''content'', done' = bool_field ms ''done'',
               error = string_field ms ''error''\<rparr>
      | _ \<Rightarrow> Inl (JsError ''SyntaxError''))"

section \<open>Notions used in the statements\<close>

text \<open>
  \<open>payload\<close> is \<open>dataStr\<close> of the TypeScript file. \<open>complete_lines\<close> and \<open>partial_line\<close>
  are what \<open>split\<close> and \<open>pop\<close> make of a text: the lines that ended with a line feed,
  and the rest. \<open>wire\<close> writes lines onto the stream, each followed by a line feed, and
  \<open>delivers D cs t\<close> says that the chunks \<open>cs\<close>, decoded in streaming mode, give the
  text \<open>t\<close>.
\<close>

definition payload :: "string \<Rightarrow> string" where
  "payload line = trim (slice 6 line)"

definition complete_lines :: "string \<Rightarrow> string list" where
  "complete_lines t = butlast (js_split nl t)"

definition partial_line :: "string \<Rightarrow> string" where
  "partial_line t = last (js_split nl t)"

definition wire :: "string list \<Rightarrow> string" where
  "wire ls = concat (map (\<lambda>l. l @ [nl]) ls)"

definition delivers :: "'d decoder \<Rightarrow> string list \<Rightarrow> string \<Rightarrow> bool" where
  "delivers D cs t \<longleftrightarrow> snd (decode_stream D (dec_init D) (concat cs)) = t"

text \<open>
  The kinds of line the wire format knows: \<open>done_line\<close> carries the sentinel or a payload
  with \<open>done: true\<close>; \<open>content_line parse l s\<close> carries the payload \<open>{ content: s }\<close> and
  nothing else; \<open>terminal_line\<close> carries the sentinel, \<open>done: true\<close> or a non-empty
  \<open>error\<close>. \<open>line_content\<close> is the \<open>content\<close> string of a line, empty where there is
  none.
\<close>

definition done_line :: "json_parse \<Rightarrow> string \<Rightarrow> bool" where
  "done_line parse l \<longleftrightarrow>
     startsWith l ''data: '' \<and>
     (payload l = ''[DONE]'' \<or>
      (case parse (payload l) of Inl e \<Rightarrow> False | Inr data \<Rightarrow> done' data = Some True))"

definition content_line :: "json_parse \<Rightarrow> string \<Rightarrow> string \<Rightarrow> bool" where
  "content_line parse l s \<longleftrightarrow>
     startsWith l ''data: '' \<and> payload l \<noteq> ''[DONE]'' \<and>
     parse (payload l) = Inr \<lparr>content = Some s, done' = None, error = None\<rparr>"

definition terminal_line :: "json_parse \<Rightarrow> string \<Rightarrow> bool" where
  "terminal_line parse l \<longleftrightarrow>
     startsWith l ''data: '' \<and>
     (payload l = ''[DONE]'' \<or>
      (case parse (payload l) of
         Inl e \<Rightarrow> False
       | Inr data \<Rightarrow>
           done' data = Some True \<or> (case error data of Some (c # m) \<Rightarrow> True | _ \<Rightarrow> False)))"

definition line_content :: "json_parse \<Rightarrow> string \<Rightarrow> string" where
  "line_content parse l =
     (if startsWith l ''data: '' then
        (case parse (payload l) of
           Inl e \<Rightarrow> []
         | Inr data \<Rightarrow> (case content data of None \<Rightarrow> [] | Some s \<Rightarrow> s))
      else [])"

text \<open>
  \<open>submitted q\<close> are the hooks an invocation for the query \<open>q\<close> leaves behind when it
  reaches \<open>await fetch(...)\<close>; \<open>stopped h\<close> is an invocation that has returned through
  the outer \<open>finally\<close>. \<open>read_all_tsx\<close> is the read loop in one step: all lines of the
  text received so far go through the \<open>for\<close> loop at once.
\<close>

definition submitted :: "string \<Rightarrow> hooks" where
  "submitted q = \<lparr>query = q, response = [], loading = True\<rparr>"

definition stopped :: "hooks \<Rightarrow> 'd task \<times> hooks" where
  "stopped h = (Settled, setLoading False h)"

definition read_all_tsx ::
  "json_parse \<Rightarrow> 'd decoder \<Rightarrow> read_result list \<Rightarrow> nat \<Rightarrow> 'd \<Rightarrow> string \<Rightarrow> string \<Rightarrow> hooks \<Rightarrow>
     'd task \<times> hooks" where
  "read_all_tsx parse D rest c d' buffer t h =
     (case process_lines_tsx parse (complete_lines (buffer @ t)) h of
        (Next, h') \<Rightarrow> run_reads_tsx parse D rest (AwaitRead c d' (partial_line (buffer @ t)), h')
      | (_, h') \<Rightarrow> (Settled, setLoading False h'))"



section \<open>Lines and chunks\<close>

lemma dropWhile_all_iff: "(\<forall>x\<in>set (dropWhile P xs). P x) \<longleftrightarrow> (\<forall>x\<in>set xs. P x)"
proof
  assume a: "\<forall>x\<in>set (dropWhile P xs). P x"
  have "dropWhile P xs = []"
  proof (rule ccontr)
    assume n: "dropWhile P xs \<noteq> []"
    then have "\<not> P (hd (dropWhile P xs))" by (rule hd_dropWhile)
    moreover from n have "hd (dropWhile P xs) \<in> set (dropWhile P xs)" by simp
    ultimately show False using a by blast
  qed
  then show "\<forall>x\<in>set xs. P x" by (simp add: dropWhile_eq_Nil_conv)
next
  assume "\<forall>x\<in>set xs. P x"
  then show "\<forall>x\<in>set (dropWhile P xs). P x" by (meson set_dropWhileD)
qed

lemma trim_empty_iff: "trim s = [] \<longleftrightarrow> (\<forall>c\<in>set s. js_whitespace c)"
  by (simp add: trim_def dropWhile_eq_Nil_conv dropWhile_all_iff)

lemma js_split_not_Nil: "js_split sep s \<noteq> []"
  by (induction s) (auto split: list.splits)

lemma js_split_append:
  "js_split sep (a @ b) = butlast (js_split sep a) @ js_split sep (last (js_split sep a) @ b)"
proof (induction a)
  case Nil
  show ?case by simp
next
  case (Cons c a)
  obtain l ls where s: "js_split sep a = l # ls"
    using js_split_not_Nil by (cases "js_split sep a") auto
  show ?case
  proof (cases "c = sep")
    case True
    then show ?thesis using Cons s by simp
  next
    case False
    then show ?thesis using Cons s js_split_not_Nil [of sep "last (l # ls) @ b"]
      by (cases ls) (auto split: list.splits)
  qed
qed

lemma js_split_no_sep: "l \<in> set (js_split sep s) \<Longrightarrow> sep \<notin> set l"
proof (induction s arbitrary: l)
  case Nil
  then show ?case by simp
next
  case (Cons c s)
  then show ?case by (cases "js_split sep s") (auto split: if_splits)
qed

lemma js_split_plain: "sep \<notin> set s \<Longrightarrow> js_split sep s = [s]"
  by (induction s) auto

lemma js_split_line: "nl \<notin> set l \<Longrightarrow> js_split nl (l @ nl # t) = l # js_split nl t"
  by (induction l) auto

lemma js_split_wire:
  "\<forall>l\<in>set ls. nl \<notin> set l \<Longrightarrow> js_split nl (wire ls @ beyond) = ls @ js_split nl beyond"
  by (induction ls) (simp_all add: wire_def js_split_line)

lemma partial_line_no_nl: "nl \<notin> set (partial_line t)"
  unfolding partial_line_def by (rule js_split_no_sep [of _ nl t]) (simp add: js_split_not_Nil)

lemma complete_lines_append:
  "complete_lines (a @ b) = complete_lines a @ complete_lines (partial_line a @ b)"
  unfolding complete_lines_def partial_line_def
  by (subst js_split_append) (simp add: butlast_append js_split_not_Nil)

lemma partial_line_append: "partial_line (a @ b) = partial_line (partial_line a @ b)"
  unfolding partial_line_def
  by (subst js_split_append) (simp add: js_split_not_Nil)

lemma complete_lines_plain: "nl \<notin> set s \<Longrightarrow> complete_lines s = []"
  by (simp add: complete_lines_def js_split_plain)

lemma partial_line_plain: "nl \<notin> set s \<Longrightarrow> partial_line s = s"
  by (simp add: partial_line_def js_split_plain)

lemma complete_lines_wire:
  "\<forall>l\<in>set ls. nl \<notin> set l \<Longrightarrow> complete_lines (wire ls @ beyond) = ls @ complete_lines beyond"
  by (simp add: complete_lines_def js_split_wire butlast_append js_split_not_Nil)

lemma complete_lines_wire_tail:
  "\<forall>l\<in>set ls. nl \<notin> set l \<Longrightarrow> nl \<notin> set tail \<Longrightarrow> complete_lines (wire ls @ tail) = ls"
  by (simp add: complete_lines_wire complete_lines_plain)

lemma complete_lines_wire_only: "\<forall>l\<in>set ls. nl \<notin> set l \<Longrightarrow> complete_lines (wire ls) = ls"
  using complete_lines_wire_tail [of ls "[]"] by simp

lemma decode_stream_append:
  "decode_stream D d (a @ b) =
     (case decode_stream D d a of
        (d1, t1) \<Rightarrow> (case decode_stream D d1 b of (d2, t2) \<Rightarrow> (d2, t1 @ t2)))"
  by (induction a arbitrary: d) (auto split: prod.splits)

section \<open>The loop over the lines\<close>

lemma hooks_same [simp]: "h\<lparr>response := response h\<rparr> = h" "h\<lparr>loading := loading h\<rparr> = h"
  by simp_all

lemma process_lines_tsx_append:
  "process_lines_tsx parse (xs @ ys) h =
     (case process_lines_tsx parse xs h of
        (Next, h') \<Rightarrow> process_lines_tsx parse ys h'
      | r \<Rightarrow> r)"
  by (induction xs arbitrary: h) (auto split: prod.splits ctl.splits)

lemma process_lines_tsx_skip:
  "process_line_tsx parse line = (\<lambda>h. (Next, h)) \<Longrightarrow>
     process_lines_tsx parse (before @ line # after) h = process_lines_tsx parse (before @ after) h"
  by (simp add: process_lines_tsx_append split: prod.splits ctl.splits)

lemma process_line_tsx_malformed:
  "startsWith line ''data: '' \<Longrightarrow> payload line \<noteq> ''[DONE]'' \<Longrightarrow> parse (payload line) = Inl e \<Longrightarrow>
     process_line_tsx parse line h = (Next, h)"
  by (simp add: process_line_tsx_def try_data_tsx_def payload_def Let_def)

lemma process_line_tsx_done:
  "done_line parse l \<Longrightarrow> process_line_tsx parse l h = (Return, setLoading False h)"
  by (auto simp: done_line_def process_line_tsx_def try_data_tsx_def payload_def Let_def
      split: sum.splits)

lemma process_line_tsx_error:
  "startsWith line ''data: '' \<Longrightarrow> payload line \<noteq> ''[DONE]'' \<Longrightarrow> parse (payload line) = Inr data \<Longrightarrow>
   done' data \<noteq> Some True \<Longrightarrow> error data = Some m \<Longrightarrow> m \<noteq> [] \<Longrightarrow>
     process_line_tsx parse line h =
       (Return, h\<lparr>response := response h @ error_notice m, loading := False\<rparr>)"
  by (cases m)
    (simp_all add: process_line_tsx_def try_data_tsx_def payload_def setResponse_def
      setLoading_def)

lemma process_lines_tsx_contents:
  "list_all2 (content_line parse) ls ss \<Longrightarrow>
     process_lines_tsx parse ls h = (Next, h\<lparr>response := response h @ concat ss\<rparr>)"
proof (induction ls ss arbitrary: h rule: list_all2_induct)
  case Nil
  show ?case by simp
next
  case (Cons l ls s ss)
  have "process_line_tsx parse l h = (Next, h\<lparr>response := response h @ s\<rparr>)"
    using Cons.hyps(1)
    by (cases s)
      (simp_all add: content_line_def process_line_tsx_def try_data_tsx_def payload_def
        setResponse_def)
  then show ?case using Cons.IH by simp
qed

lemma process_line_tsx_plain:
  "\<not> terminal_line parse l \<Longrightarrow>
     process_line_tsx parse l h = (Next, h\<lparr>response := response h @ line_content parse l\<rparr>)"
  by (auto simp: terminal_line_def line_content_def process_line_tsx_def try_data_tsx_def
      payload_def Let_def setResponse_def split: sum.splits option.splits list.splits)

lemma process_lines_tsx_plain:
  "\<forall>l\<in>set ls. \<not> terminal_line parse l \<Longrightarrow>
     process_lines_tsx parse ls h =
       (Next, h\<lparr>response := response h @ concat (map (line_content parse) ls)\<rparr>)"
  by (induction ls arbitrary: h) (simp_all add: process_line_tsx_plain)

section \<open>The read loop of SECAnalyzer.tsx\<close>

lemma run_reads_tsx_Settled [simp]: "run_reads_tsx parse D rs (Settled, h) = (Settled, h)"
  by (cases rs) auto

text \<open>
  However the transport cuts the bytes into chunks, the loop does to the hooks what one
  pass over the complete lines of the whole text does, and it keeps the rest of the text
  in \<open>buffer\<close>.
\<close>

lemma run_reads_tsx_chunks:
  "nl \<notin> set buffer \<Longrightarrow> decode_stream D d (concat cs) = (d', t) \<Longrightarrow>
     run_reads_tsx parse D (map Chunk cs @ rest) (AwaitRead c d buffer, h) =
       read_all_tsx parse D rest c d' buffer t h"
proof (induction cs arbitrary: d buffer h t)
  case Nil
  then show ?case
    by (simp add: read_all_tsx_def complete_lines_plain partial_line_plain)
next
  case (Cons v cs)
  obtain d1 t1 where v: "decode_stream D d v = (d1, t1)" by (cases "decode_stream D d v")
  obtain t2 where r: "decode_stream D d1 (concat cs) = (d', t2)" and dt: "t = t1 @ t2"
    using Cons.prems(2) v by (auto simp: decode_stream_append split: prod.splits)
  let ?b = "partial_line (buffer @ t1)"
  have ih: "run_reads_tsx parse D (map Chunk cs @ rest) (AwaitRead c d1 ?b, k) =
      read_all_tsx parse D rest c d' ?b t2 k" for k
    using Cons.IH [OF partial_line_no_nl r] .
  have cl: "complete_lines (buffer @ t1 @ t2) =
      complete_lines (buffer @ t1) @ complete_lines (?b @ t2)"
    using complete_lines_append [of "buffer @ t1" t2] by simp
  have pl: "partial_line (buffer @ t1 @ t2) = partial_line (?b @ t2)"
    using partial_line_append [of "buffer @ t1" t2] by simp
  have rhs: "read_all_tsx parse D rest c d' buffer (t1 @ t2) h =
      (case process_lines_tsx parse (complete_lines (buffer @ t1)) h of
         (Next, k) \<Rightarrow> read_all_tsx parse D rest c d' ?b t2 k
       | (_, k) \<Rightarrow> (Settled, setLoading False k))"
    unfolding read_all_tsx_def cl pl process_lines_tsx_append
    by (simp split: prod.splits ctl.splits)
  have lhs: "run_reads_tsx parse D (map Chunk (v # cs) @ rest) (AwaitRead c d buffer, h) =
      (case process_lines_tsx parse (complete_lines (buffer @ t1)) h of
         (Next, k) \<Rightarrow> run_reads_tsx parse D (map Chunk cs @ rest) (AwaitRead c d1 ?b, k)
       | (_, k) \<Rightarrow> (Settled, setLoading False k))"
    using v
    by (simp add: after_read_tsx_def Let_def js_split_not_Nil complete_lines_def partial_line_def
        split: prod.splits ctl.splits)
  show ?case unfolding lhs dt rhs ih ..
qed

lemma run_reads_tsx_eof:
  assumes "delivers D cs t"
  shows "run_reads_tsx parse D (map Chunk cs @ [EndOfStream]) (AwaitRead c (dec_init D) [], h) =
       stopped (snd (process_lines_tsx parse (complete_lines t) h))"
proof -
  obtain d' where "decode_stream D (dec_init D) (concat cs) = (d', t)"
    using assms by (cases "decode_stream D (dec_init D) (concat cs)") (simp add: delivers_def)
  then show ?thesis
    by (simp add: run_reads_tsx_chunks read_all_tsx_def after_read_tsx_def stopped_def
        split: prod.splits ctl.splits)
qed

lemma run_reads_tsx_returned:
  assumes "delivers D cs t" and "process_lines_tsx parse (complete_lines t) h = (Return, h')"
  shows "run_reads_tsx parse D (map Chunk cs @ rest) (AwaitRead c (dec_init D) [], h) = stopped h'"
proof -
  obtain d' where "decode_stream D (dec_init D) (concat cs) = (d', t)"
    using assms(1) by (cases "decode_stream D (dec_init D) (concat cs)") (simp add: delivers_def)
  then show ?thesis using assms(2)
    by (simp add: run_reads_tsx_chunks read_all_tsx_def stopped_def)
qed

section \<open>Submitting\<close>

text \<open>
  C8. A submit whose query is empty or consists of white space only is a no-op, in the
  TypeScript and in the JavaScript file: the hooks (\<open>loading\<close>, \<open>response\<close>), the
  abort controller reference, the controllers and the list of issued requests are what
  they were.
\<close>

theorem blank_query_is_noop:
  "\<forall>c\<in>set (query (ui w)). js_whitespace c \<Longrightarrow> \<forall>c\<in>set (query (jsx_ui v)). js_whitespace c \<Longrightarrow>
     handleSubmit_tsx w = w \<and> deliver_tsx parse D Submit w = Some w \<and> handleSubmit_jsx v = v"
  by (simp add: handleSubmit_tsx_def handleSubmit_jsx_def deliver_tsx_def trim_empty_iff)

theorem blank_query_is_noop_witness:
  "js_whitespace (CHR 0x20) \<and> js_whitespace (CHR 0x09) \<and>
   handleSubmit_tsx \<lparr>ui = \<lparr>query = [CHR 0x20, CHR 0x09], response = ''old'', loading = True\<rparr>,
        abortControllerRef = Some 0, controllers = [False], tasks = [AwaitRead 0 () ''da'']\<rparr> =
     \<lparr>ui = \<lparr>query = [CHR 0x20, CHR 0x09], response = ''old'', loading = True\<rparr>,
        abortControllerRef = Some 0, controllers = [False], tasks = [AwaitRead 0 () ''da'']\<rparr> \<and>
   handleSubmit_jsx \<lparr>jsx_ui = \<lparr>query = [], response = ''old'', loading = False\<rparr>,
        jsx_tasks = [JsxSettled]\<rparr> =
     \<lparr>jsx_ui = \<lparr>query = [], response = ''old'', loading = False\<rparr>, jsx_tasks = [JsxSettled]\<rparr>"
proof -
  let ?w = "\<lparr>ui = \<lparr>query = [CHR 0x20, CHR 0x09], response = ''old'', loading = True\<rparr>,
        abortControllerRef = Some 0, controllers = [False], tasks = [AwaitRead 0 () ''da'']\<rparr>"
  let ?v = "\<lparr>jsx_ui = \<lparr>query = [], response = ''old'', loading = False\<rparr>,
        jsx_tasks = [JsxSettled]\<rparr>"
  have a: "\<forall>c\<in>set (query (ui ?w)). js_whitespace c" by (simp add: js_whitespace_def)
  have b: "\<forall>c\<in>set (query (jsx_ui ?v)). js_whitespace c" by simp
  from blank_query_is_noop [OF a b] show ?thesis by (simp add: js_whitespace_def)
qed

section \<open>One line\<close>

text \<open>
  C9. A complete line that does not begin with \<open>data: \<close> (a blank line, an \<open>event:\<close>,
  \<open>id:\<close> or \<open>retry:\<close> line, any other line) leaves the hooks as they are and lets the
  loop go on; the loop over the lines ends as it does without that line. The loop body
  has no way out other than \<open>Next\<close>, \<open>Break\<close> and \<open>Return\<close>: it raises nothing.
\<close>

theorem unrecognized_line_skipped:
  "\<not> startsWith line ''data: '' \<Longrightarrow>
     process_line_tsx parse line h = (Next, h) \<and>
     process_lines_tsx parse (before @ line # after) h = process_lines_tsx parse (before @ after) h"
  by (simp add: process_line_tsx_def process_lines_tsx_append split: prod.splits ctl.splits)

theorem unrecognized_line_skipped_witness:
  "\<not> startsWith ''retry: 3000'' ''data: '' \<and> \<not> startsWith [] ''data: '' \<and>
   \<not> startsWith ''data:{}'' ''data: '' \<and>
   process_line_tsx flat_parse ''retry: 3000'' (submitted ''q'') = (Next, submitted ''q'') \<and>
   process_line_tsx flat_parse [] (submitted ''q'') = (Next, submitted ''q'') \<and>
   process_line_tsx flat_parse ''data:{}'' (submitted ''q'') = (Next, submitted ''q'') \<and>
   process_lines_tsx flat_parse [''retry: 3000'', ''data: [DONE]''] (submitted ''q'') =
     (Return, \<lparr>query = ''q'', response = [], loading = False\<rparr>)"
proof -
  have a: "\<not> startsWith ''retry: 3000'' ''data: ''" by code_simp
  have b: "\<not> startsWith [] ''data: ''" by code_simp
  have c: "\<not> startsWith ''data:{}'' ''data: ''" by code_simp
  have d: "process_lines_tsx flat_parse ([] @ [''data: [DONE]'']) (submitted ''q'') =
      (Return, \<lparr>query = ''q'', response = [], loading = False\<rparr>)"
    by code_simp
  from unrecognized_line_skipped [where parse = flat_parse and h = "submitted ''q''"
      and before = "[]" and after = "[''data: [DONE]'']", OF a]
    unrecognized_line_skipped [where parse = flat_parse and h = "submitted ''q''"
      and before = "[]" and after = "[]", OF b]
    unrecognized_line_skipped [where parse = flat_parse and h = "submitted ''q''"
      and before = "[]" and after = "[]", OF c]
    a b c d show ?thesis by simp
qed

text \<open>
  What a \<open>data: \<close> line does to the hooks, by the first test of the \<open>try\<close> block that
  succeeds, and what that means for the loop over the lines and for the stream.
\<close>

lemma process_line_tsx_sentinel:
  "startsWith line ''data: '' \<Longrightarrow> payload line = ''[DONE]'' \<Longrightarrow>
     process_line_tsx parse line h = (Return, h\<lparr>loading := False\<rparr>)"
  by (simp add: process_line_tsx_def try_data_tsx_def payload_def setLoading_def)

lemma process_line_tsx_done_true:
  "startsWith line ''data: '' \<Longrightarrow> parse (payload line) = Inr data \<Longrightarrow> done' data = Some True \<Longrightarrow>
     process_line_tsx parse line h = (Return, h\<lparr>loading := False\<rparr>)"
  by (simp add: process_line_tsx_def try_data_tsx_def payload_def setLoading_def Let_def)

lemma process_line_tsx_content:
  "startsWith line ''data: '' \<Longrightarrow> payload line \<noteq> ''[DONE]'' \<Longrightarrow> parse (payload line) = Inr data \<Longrightarrow>
   done' data \<noteq> Some True \<Longrightarrow> error data = None \<or> error data = Some [] \<Longrightarrow>
     process_line_tsx parse line h =
       (Next, h\<lparr>response := response h @ (case content data of None \<Rightarrow> [] | Some s \<Rightarrow> s)\<rparr>)"
  by (auto simp: process_line_tsx_def try_data_tsx_def payload_def setResponse_def
      split: option.splits list.splits)

lemma run_reads_tsx_line_returns:
  assumes "process_line_tsx parse line h1 = (Return, h2)"
    and "process_lines_tsx parse before h = (Next, h1)"
    and "\<forall>x\<in>set (before @ [line]). nl \<notin> set x"
    and "delivers D cs (wire (before @ [line]) @ beyond)"
  shows "process_lines_tsx parse (before @ line # after) h = (Return, h2) \<and>
     run_reads_tsx parse D (map Chunk cs @ rest) (AwaitRead c (dec_init D) [], h) =
       (Settled, h2\<lparr>loading := False\<rparr>)"
proof -
  have "process_lines_tsx parse (complete_lines (wire (before @ [line]) @ beyond)) h = (Return, h2)"
    using assms(1-3) by (simp add: complete_lines_wire process_lines_tsx_append)
  with assms(4) have "run_reads_tsx parse D (map Chunk cs @ rest) (AwaitRead c (dec_init D) [], h) =
      stopped h2"
    by (rule run_reads_tsx_returned)
  then show ?thesis using assms(1,2)
    by (simp add: stopped_def setLoading_def process_lines_tsx_append)
qed

lemma run_reads_tsx_line_continues:
  assumes "process_line_tsx parse line h1 = (Next, h2)"
    and "process_lines_tsx parse before h = (Next, h1)"
    and "\<forall>x\<in>set (before @ [line]). nl \<notin> set x"
    and "delivers D cs (wire (before @ [line]) @ beyond)"
  shows "process_lines_tsx parse (before @ line # after) h = process_lines_tsx parse after h2 \<and>
     run_reads_tsx parse D (map Chunk cs @ [EndOfStream]) (AwaitRead c (dec_init D) [], h) =
       (Settled, (snd (process_lines_tsx parse (complete_lines beyond) h2))\<lparr>loading := False\<rparr>)"
proof -
  have "process_lines_tsx parse (complete_lines (wire (before @ [line]) @ beyond)) h =
      process_lines_tsx parse (complete_lines beyond) h2"
    using assms(1-3) by (simp add: complete_lines_wire process_lines_tsx_append)
  with assms(4) show ?thesis using assms(1,2)
    by (simp add: run_reads_tsx_eof stopped_def setLoading_def process_lines_tsx_append)
qed

text \<open>
  C10, as the code has it. On a \<open>data: \<close> line the tests come in a fixed order: the
  sentinel \<open>[DONE]\<close>, then \<open>done\<close> being true, then \<open>error\<close> being a non-empty string,
  then \<open>content\<close> being a non-empty string. Only the first test that succeeds takes
  effect, and a field whose value is falsy is passed over. With the sentinel or
  \<open>done: true\<close> the invocation returns with \<open>loading\<close> false and \<open>response\<close> as the
  lines before left it, whatever \<open>error\<close> and \<open>content\<close> are and whatever follows in
  the stream; with a non-empty \<open>error\<close> and no \<open>done: true\<close> it returns with the notice
  appended and not the content; otherwise the content, if any, is appended and the
  stream goes on. The second variant of the component in the TypeScript file has the
  same \<open>try\<close> block. The witness is the payload
  \<open>{"done":true,"error":"x","content":"y"}\<close>, cut by a chunk boundary.
\<close>

theorem first_applicable_field_wins:
  assumes "startsWith line ''data: ''"
    and "process_lines_tsx parse before h = (Next, h1)"
    and "\<forall>x\<in>set (before @ [line]). nl \<notin> set x"
    and "delivers D cs (wire (before @ [line]) @ beyond)"
  shows
    "(payload line = ''[DONE]'' \<or> parse (payload line) = Inr data \<and> done' data = Some True \<longrightarrow>
        process_line_tsx parse line h1 = (Return, h1\<lparr>loading := False\<rparr>) \<and>
        process_lines_tsx parse (before @ line # after) h = (Return, h1\<lparr>loading := False\<rparr>) \<and>
        run_reads_tsx parse D (map Chunk cs @ rest) (AwaitRead c (dec_init D) [], h) =
          (Settled, h1\<lparr>loading := False\<rparr>)) \<and>
     (payload line \<noteq> ''[DONE]'' \<and> parse (payload line) = Inr data \<and> done' data \<noteq> Some True \<and>
      error data = Some m \<and> m \<noteq> [] \<longrightarrow>
        process_line_tsx parse line h1 =
          (Return, h1\<lparr>response := response h1 @ error_notice m, loading := False\<rparr>) \<and>
        process_lines_tsx parse (before @ line # after) h =
          (Return, h1\<lparr>response := response h1 @ error_notice m, loading := False\<rparr>) \<and>
        run_reads_tsx parse D (map Chunk cs @ rest) (AwaitRead c (dec_init D) [], h) =
          (Settled, h1\<lparr>response := response h1 @ error_notice m, loading := False\<rparr>)) \<and>
     (payload line \<noteq> ''[DONE]'' \<and> parse (payload line) = Inr data \<and> done' data \<noteq> Some True \<and>
      (error data = None \<or> error data = Some []) \<longrightarrow>
        process_line_tsx parse line h1 =
          (Next, h1\<lparr>response := response h1 @ (case content data of None \<Rightarrow> [] | Some s \<Rightarrow> s)\<rparr>) \<and>
        process_lines_tsx parse (before @ line # after) h =
          process_lines_tsx parse after
            (h1\<lparr>response := response h1 @ (case content data of None \<Rightarrow> [] | Some s \<Rightarrow> s)\<rparr>) \<and>
        run_reads_tsx parse D (map Chunk cs @ [EndOfStream]) (AwaitRead c (dec_init D) [], h) =
          (Settled,
           (snd (process_lines_tsx parse (complete_lines beyond)
              (h1\<lparr>response := response h1 @ (case content data of None \<Rightarrow> [] | Some s \<Rightarrow> s)\<rparr>)))
           \<lparr>loading := False\<rparr>))"
proof (intro conjI impI)
  assume a: "payload line = ''[DONE]'' \<or> parse (payload line) = Inr data \<and> done' data = Some True"
  then have one: "process_line_tsx parse line h1 = (Return, h1\<lparr>loading := False\<rparr>)"
    using assms(1) by (auto simp: process_line_tsx_sentinel process_line_tsx_done_true)
  then show "process_line_tsx parse line h1 = (Return, h1\<lparr>loading := False\<rparr>)" .
  from run_reads_tsx_line_returns [OF one assms(2-4)]
  show "process_lines_tsx parse (before @ line # after) h = (Return, h1\<lparr>loading := False\<rparr>)"
    and "run_reads_tsx parse D (map Chunk cs @ rest) (AwaitRead c (dec_init D) [], h) =
      (Settled, h1\<lparr>loading := False\<rparr>)"
    by simp_all
next
  assume a: "payload line \<noteq> ''[DONE]'' \<and> parse (payload line) = Inr data \<and>
      done' data \<noteq> Some True \<and> error data = Some m \<and> m \<noteq> []"
  then have one: "process_line_tsx parse line h1 =
      (Return, h1\<lparr>response := response h1 @ error_notice m, loading := False\<rparr>)"
    using assms(1) by (simp add: process_line_tsx_error)
  then show "process_line_tsx parse line h1 =
      (Return, h1\<lparr>response := response h1 @ error_notice m, loading := False\<rparr>)" .
  from run_reads_tsx_line_returns [OF one assms(2-4)]
  show "process_lines_tsx parse (before @ line # after) h =
      (Return, h1\<lparr>response := response h1 @ error_notice m, loading := False\<rparr>)"
    and "run_reads_tsx parse D (map Chunk cs @ rest) (AwaitRead c (dec_init D) [], h) =
      (Settled, h1\<lparr>response := response h1 @ error_notice m, loading := False\<rparr>)"
    by simp_all
next
  let ?h2 = "h1\<lparr>response := response h1 @ (case content data of None \<Rightarrow> [] | Some s \<Rightarrow> s)\<rparr>"
  assume a: "payload line \<noteq> ''[DONE]'' \<and> parse (payload line) = Inr data \<and>
      done' data \<noteq> Some True \<and> (error data = None \<or> error data = Some [])"
  then have one: "process_line_tsx parse line h1 = (Next, ?h2)"
    using assms(1) by (simp add: process_line_tsx_content)
  then show "process_line_tsx parse line h1 = (Next, ?h2)" .
  from run_reads_tsx_line_continues [OF one assms(2-4)]
  show "process_lines_tsx parse (before @ line # after) h = process_lines_tsx parse after ?h2"
    and "run_reads_tsx parse D (map Chunk cs @ [EndOfStream]) (AwaitRead c (dec_init D) [], h) =
      (Settled, (snd (process_lines_tsx parse (complete_lines beyond) ?h2))\<lparr>loading := False\<rparr>)"
    by simp_all
qed

theorem first_applicable_field_wins_witness:
  \<open>startsWith ''data: {"done":true,"error":"x","content":"y"}'' ''data: '' \<and>
   process_lines_tsx flat_parse [''data: {"content":"so far"}''] (submitted ''q'') =
     (Next, \<lparr>query = ''q'', response = ''so far'', loading = True\<rparr>) \<and>
   nl \<notin> set (concat ([''data: {"content":"so far"}''] @
     [''data: {"done":true,"error":"x","content":"y"}''])) \<and>
   delivers ascii_decoder
     [''data: {"content":"so far"}'' @ nl # ''data: {"done":true,"err'',
      ''or":"x","content":"y"}'' @ nl # ''data: {"content":"z"}'' @ [nl]]
     (wire ([''data: {"content":"so far"}''] @ [''data: {"done":true,"error":"x","content":"y"}'']) @
      ''data: {"content":"z"}'' @ [nl]) \<and>
   flat_parse (payload ''data: {"done":true,"error":"x","content":"y"}'') =
     Inr \<lparr>content = Some ''y'', done' = Some True, error = Some ''x''\<rparr> \<and>
   process_lines_tsx flat_parse
     ([''data: {"content":"so far"}''] @ ''data: {"done":true,"error":"x","content":"y"}'' #
      [''data: {"content":"z"}''])
     (submitted ''q'') =
     (Return, \<lparr>query = ''q'', response = ''so far'', loading = False\<rparr>) \<and>
   run_reads_tsx flat_parse ascii_decoder
     (map Chunk
        [''data: {"content":"so far"}'' @ nl # ''data: {"done":true,"err'',
         ''or":"x","content":"y"}'' @ nl # ''data: {"content":"z"}'' @ [nl]] @
      [Chunk (''data: {"content":"late"}'' @ [nl]), EndOfStream])
     (AwaitRead 0 () [], submitted ''q'') =
     (Settled, \<lparr>query = ''q'', response = ''so far'', loading = False\<rparr>)\<close>
proof -
  let ?b = \<open>''data: {"content":"so far"}''\<close>
  let ?l = \<open>''data: {"done":true,"error":"x","content":"y"}''\<close>
  let ?beyond = \<open>''data: {"content":"z"}'' @ [nl]\<close>
  let ?cs = \<open>[?b @ nl # ''data: {"done":true,"err'', ''or":"x","content":"y"}'' @ nl # ?beyond]\<close>
  let ?rest = \<open>[Chunk (''data: {"content":"late"}'' @ [nl]), EndOfStream]\<close>
  let ?h1 = "\<lparr>query = ''q'', response = ''so far'', loading = True\<rparr>"
  let ?data = "\<lparr>content = Some ''y'', done' = Some True, error = Some ''x''\<rparr>"
  have a: "startsWith ?l ''data: ''" by code_simp
  have b: "process_lines_tsx flat_parse [?b] (submitted ''q'') = (Next, ?h1)" by code_simp
  have c: "\<forall>x\<in>set ([?b] @ [?l]). nl \<notin> set x" by code_simp
  have c': "nl \<notin> set (concat ([?b] @ [?l]))" by code_simp
  have d: "delivers ascii_decoder ?cs (wire ([?b] @ [?l]) @ ?beyond)" by code_simp
  have e: "flat_parse (payload ?l) = Inr ?data" by code_simp
  have k: "dec_init ascii_decoder = ()" by (simp add: ascii_decoder_def)
  from first_applicable_field_wins [where parse = flat_parse and line = ?l and before = "[?b]"
      and h = "submitted ''q''" and ?h1.0 = ?h1 and D = ascii_decoder and cs = ?cs
      and beyond = ?beyond and data = ?data and m = "''x''"
      and after = \<open>[''data: {"content":"z"}'']\<close> and rest = ?rest and c = 0, OF a b c d] e
  have \<open>process_lines_tsx flat_parse ([?b] @ ?l # [''data: {"content":"z"}'']) (submitted ''q'') =
      (Return, ?h1\<lparr>loading := False\<rparr>) \<and>
    run_reads_tsx flat_parse ascii_decoder (map Chunk ?cs @ ?rest)
      (AwaitRead 0 () [], submitted ''q'') = (Settled, ?h1\<lparr>loading := False\<rparr>)\<close>
    unfolding k by simp
  with a b c' d e show ?thesis by simp
qed


text \<open>
  The claim as the specification words it fails where a field of higher priority is set
  to a falsy value: \<open>{"content":"x","done":false}\<close> sets \<open>done\<close>, and the content is
  appended; \<open>{"done":false,"error":"x","content":"y"}\<close> sets \<open>done\<close>, and the error is
  applied.
\<close>

theorem falsy_field_counterexample:
  \<open>flat_parse (payload ''data: {"content":"x","done":false}'') =
     Inr \<lparr>content = Some ''x'', done' = Some False, error = None\<rparr> \<and>
   run_reads_tsx flat_parse ascii_decoder
     [Chunk (''data: {"content":"x","done":false}'' @ [nl])]
     (AwaitRead 0 () [], submitted ''q'') =
   (AwaitRead 0 () [], \<lparr>query = ''q'', response = ''x'', loading = True\<rparr>) \<and>
   flat_parse (payload ''data: {"done":false,"error":"x","content":"y"}'') =
     Inr \<lparr>content = Some ''y'', done' = Some False, error = Some ''x''\<rparr> \<and>
   run_reads_tsx flat_parse ascii_decoder
     [Chunk (''data: {"done":false,"error":"x","content":"y"}'' @ [nl])]
     (AwaitRead 0 () [], submitted ''q'') =
   (Settled, \<lparr>query = ''q'', response = nl # nl # ''Error: x'', loading = False\<rparr>)\<close>
  by code_simp

text \<open>
  C6. A \<open>data: \<close> line whose payload does not parse is skipped: it leaves the hooks as
  they are, the lines after it go through the loop as they do without it, and a stream
  that contains the line ends in the state of the same stream without it.
\<close>

theorem malformed_payload_skipped:
  assumes "startsWith line ''data: ''" and "payload line \<noteq> ''[DONE]''"
    and "parse (payload line) = Inl e"
  shows "process_line_tsx parse line h = (Next, h) \<and>
     process_lines_tsx parse (before @ line # after) h = process_lines_tsx parse (before @ after) h \<and>
     ((\<forall>x\<in>set (before @ line # after). nl \<notin> set x) \<and> nl \<notin> set tail \<and>
      delivers D cs (wire (before @ line # after) @ tail) \<and>
      delivers D cs' (wire (before @ after) @ tail) \<longrightarrow>
        run_reads_tsx parse D (map Chunk cs @ [EndOfStream]) (AwaitRead c (dec_init D) [], h) =
        run_reads_tsx parse D (map Chunk cs' @ [EndOfStream]) (AwaitRead c (dec_init D) [], h))"
proof -
  have skip: "process_line_tsx parse line = (\<lambda>h. (Next, h))"
    using assms by (simp add: fun_eq_iff process_line_tsx_malformed)
  have lines: "process_lines_tsx parse (before @ line # after) k =
      process_lines_tsx parse (before @ after) k" for k
    using skip by (rule process_lines_tsx_skip)
  show ?thesis
    using skip lines by (auto simp: run_reads_tsx_eof complete_lines_wire_tail)
qed

theorem malformed_payload_skipped_witness:
  \<open>startsWith ''data: {"content":'' ''data: '' \<and> payload ''data: {"content":'' \<noteq> ''[DONE]'' \<and>
   flat_parse (payload ''data: {"content":'') = Inl (JsError ''SyntaxError'') \<and>
   nl \<notin> set (concat ([''data: {"content":"a"}''] @ ''data: {"content":'' # [''data: {"content":"b"}''])) \<and>
   nl \<notin> set ''da'' \<and>
   delivers ascii_decoder
     [''data: {"content":"a"}'' @ nl # ''data: {"con'', ''tent":'' @ nl # ''data: {"content":"b"}'' @ nl # ''da'']
     (wire ([''data: {"content":"a"}''] @ ''data: {"content":'' # [''data: {"content":"b"}'']) @ ''da'') \<and>
   delivers ascii_decoder
     [''data: {"content":"a"}'' @ [nl], ''data: {"content":"b"}'' @ nl # ''da'']
     (wire ([''data: {"content":"a"}''] @ [''data: {"content":"b"}'']) @ ''da'') \<and>
   run_reads_tsx flat_parse ascii_decoder
     (map Chunk [''data: {"content":"a"}'' @ nl # ''data: {"con'',
                 ''tent":'' @ nl # ''data: {"content":"b"}'' @ nl # ''da''] @ [EndOfStream])
     (AwaitRead 0 () [], submitted ''q'') =
   (Settled, \<lparr>query = ''q'', response = ''ab'', loading = False\<rparr>)\<close>
proof -
  let ?bad = \<open>''data: {"content":''\<close>
  let ?a = \<open>''data: {"content":"a"}''\<close>
  let ?b = \<open>''data: {"content":"b"}''\<close>
  let ?cs = \<open>[?a @ nl # ''data: {"con'', ''tent":'' @ nl # ?b @ nl # ''da'']\<close>
  let ?cs' = \<open>[?a @ [nl], ?b @ nl # ''da'']\<close>
  have a: "startsWith ?bad ''data: ''" by code_simp
  have b: "payload ?bad \<noteq> ''[DONE]''" by code_simp
  have c: "flat_parse (payload ?bad) = Inl (JsError ''SyntaxError'')" by code_simp
  have d: "\<forall>x\<in>set ([?a] @ ?bad # [?b]). nl \<notin> set x" by code_simp
  have e: "nl \<notin> set ''da''" by code_simp
  have f: "delivers ascii_decoder ?cs (wire ([?a] @ ?bad # [?b]) @ ''da'')" by code_simp
  have g: "delivers ascii_decoder ?cs' (wire ([?a] @ [?b]) @ ''da'')" by code_simp
  have i: "dec_init ascii_decoder = ()" by (simp add: ascii_decoder_def)
  have k: "run_reads_tsx flat_parse ascii_decoder (map Chunk ?cs' @ [EndOfStream])
      (AwaitRead 0 () [], submitted ''q'') =
      (Settled, \<lparr>query = ''q'', response = ''ab'', loading = False\<rparr>)"
    by code_simp
  from malformed_payload_skipped [where parse = flat_parse and line = ?bad
      and h = "submitted ''q''" and before = "[?a]" and after = "[?b]" and tail = "''da''"
      and D = ascii_decoder and cs = ?cs and cs' = ?cs' and c = 0, OF a b c] d e f g
  have "run_reads_tsx flat_parse ascii_decoder (map Chunk ?cs @ [EndOfStream])
      (AwaitRead 0 () [], submitted ''q'') =
    run_reads_tsx flat_parse ascii_decoder (map Chunk ?cs' @ [EndOfStream])
      (AwaitRead 0 () [], submitted ''q'')"
    unfolding i by blast
  moreover have "nl \<notin> set (concat ([?a] @ ?bad # [?b]))" by code_simp
  ultimately show ?thesis using k a b c e f g by simp
qed

text \<open>
  C7. The content strings of a sequence of content payloads are appended to \<open>response\<close>
  as they are, one after the other and with nothing between them; when a line with the
  sentinel or \<open>done: true\<close> follows them, the invocation returns with \<open>response\<close>
  extended by their concatenation and \<open>loading\<close> false, however the stream is cut into
  chunks. The witness is the stream \<open>data: {"content":"Reven"}\<close>,
  \<open>data: {"content":"ue: $10B"}\<close>, \<open>data: {"done":true}\<close>, which gives
  \<open>Revenue: $10B\<close>.
\<close>

theorem content_appended_verbatim:
  assumes "list_all2 (content_line parse) ls ss"
  shows "process_lines_tsx parse ls h = (Next, h\<lparr>response := response h @ concat ss\<rparr>) \<and>
     (done_line parse fin \<and> (\<forall>x\<in>set (ls @ [fin]). nl \<notin> set x) \<and>
      delivers D cs (wire (ls @ [fin])) \<longrightarrow>
        run_reads_tsx parse D (map Chunk cs) (AwaitRead c (dec_init D) [], h) =
          (Settled, h\<lparr>response := response h @ concat ss, loading := False\<rparr>))"
proof (intro conjI impI)
  show a: "process_lines_tsx parse ls h = (Next, h\<lparr>response := response h @ concat ss\<rparr>)"
    using assms by (rule process_lines_tsx_contents)
  assume b: "done_line parse fin \<and> (\<forall>x\<in>set (ls @ [fin]). nl \<notin> set x) \<and>
      delivers D cs (wire (ls @ [fin]))"
  then have "process_lines_tsx parse (complete_lines (wire (ls @ [fin]))) h =
      (Return, setLoading False (h\<lparr>response := response h @ concat ss\<rparr>))"
    using a by (simp add: complete_lines_wire_only process_lines_tsx_append process_line_tsx_done)
  with b have "run_reads_tsx parse D (map Chunk cs @ []) (AwaitRead c (dec_init D) [], h) =
      stopped (setLoading False (h\<lparr>response := response h @ concat ss\<rparr>))"
    by (intro run_reads_tsx_returned [where t = "wire (ls @ [fin])"]) simp_all
  then show "run_reads_tsx parse D (map Chunk cs) (AwaitRead c (dec_init D) [], h) =
      (Settled, h\<lparr>response := response h @ concat ss, loading := False\<rparr>)"
    by (simp add: stopped_def setLoading_def)
qed

theorem content_appended_verbatim_witness:
  \<open>list_all2 (content_line flat_parse)
     [''data: {"content":"Reven"}'', ''data: {"content":"ue: $10B"}''] [''Reven'', ''ue: $10B''] \<and>
   done_line flat_parse ''data: {"done":true}'' \<and>
   nl \<notin> set (concat ([''data: {"content":"Reven"}'', ''data: {"content":"ue: $10B"}''] @
       [''data: {"done":true}''])) \<and>
   delivers ascii_decoder
     [''data: {"content":"Reven"}'' @ [nl], ''data: {"content":"ue: $10B"}'' @ [nl],
      ''data: {"done":true}'' @ [nl]]
     (wire ([''data: {"content":"Reven"}'', ''data: {"content":"ue: $10B"}''] @
       [''data: {"done":true}''])) \<and>
   run_reads_tsx flat_parse ascii_decoder
     (map Chunk [''data: {"content":"Reven"}'' @ [nl], ''data: {"content":"ue: $10B"}'' @ [nl],
        ''data: {"done":true}'' @ [nl]])
     (AwaitRead 0 () [], submitted ''q'') =
   (Settled, \<lparr>query = ''q'', response = ''Revenue: $10B'', loading = False\<rparr>)\<close>
proof -
  let ?ls = \<open>[''data: {"content":"Reven"}'', ''data: {"content":"ue: $10B"}'']\<close>
  let ?fin = \<open>''data: {"done":true}''\<close>
  let ?cs = \<open>[''data: {"content":"Reven"}'' @ [nl], ''data: {"content":"ue: $10B"}'' @ [nl],
      ''data: {"done":true}'' @ [nl]]\<close>
  have a: "list_all2 (content_line flat_parse) ?ls [''Reven'', ''ue: $10B'']" by code_simp
  have b: "done_line flat_parse ?fin" by code_simp
  have c: "\<forall>x\<in>set (?ls @ [?fin]). nl \<notin> set x" by code_simp
  have d: "delivers ascii_decoder ?cs (wire (?ls @ [?fin]))" by code_simp
  have i: "dec_init ascii_decoder = ()" by (simp add: ascii_decoder_def)
  from content_appended_verbatim [where parse = flat_parse and h = "submitted ''q''"
      and fin = ?fin and D = ascii_decoder and cs = ?cs and c = 0, OF a] b c d
  have "run_reads_tsx flat_parse ascii_decoder (map Chunk ?cs) (AwaitRead 0 () [], submitted ''q'') =
      (Settled, (submitted ''q'')\<lparr>response := response (submitted ''q'') @
         concat [''Reven'', ''ue: $10B''], loading := False\<rparr>)"
    unfolding i by blast
  moreover have "nl \<notin> set (concat (?ls @ [?fin]))" by code_simp
  ultimately show ?thesis using a b d by (simp add: submitted_def)
qed

text \<open>
  C5, as the code has it. In the TypeScript file a \<open>data: \<close> line whose payload has no
  \<open>done: true\<close> and a non-empty \<open>error\<close> string appends the notice
  \<open>\n\nError: \<close> followed by the message to \<open>response\<close> and sets \<open>loading\<close> to false;
  no line after it is looked at, and the invocation returns in that state whatever the
  stream still holds.
\<close>

theorem error_payload_stops:
  assumes "startsWith line ''data: ''" and "payload line \<noteq> ''[DONE]''"
    and "parse (payload line) = Inr data" and "done' data \<noteq> Some True"
    and "error data = Some m" and "m \<noteq> []"
  shows "process_lines_tsx parse (line # after) h =
       (Return, h\<lparr>response := response h @ error_notice m, loading := False\<rparr>) \<and>
     (process_lines_tsx parse before h = (Next, h1) \<and> (\<forall>x\<in>set (before @ [line]). nl \<notin> set x) \<and>
      delivers D cs (wire (before @ [line]) @ beyond) \<longrightarrow>
        run_reads_tsx parse D (map Chunk cs @ rest) (AwaitRead c (dec_init D) [], h) =
          (Settled, h1\<lparr>response := response h1 @ error_notice m, loading := False\<rparr>))"
proof (intro conjI impI)
  have one: "process_line_tsx parse line k =
      (Return, k\<lparr>response := response k @ error_notice m, loading := False\<rparr>)" for k
    using assms by (rule process_line_tsx_error)
  then show "process_lines_tsx parse (line # after) h =
      (Return, h\<lparr>response := response h @ error_notice m, loading := False\<rparr>)"
    by simp
  assume b: "process_lines_tsx parse before h = (Next, h1) \<and>
      (\<forall>x\<in>set (before @ [line]). nl \<notin> set x) \<and> delivers D cs (wire (before @ [line]) @ beyond)"
  then have "process_lines_tsx parse (complete_lines (wire (before @ [line]) @ beyond)) h =
      (Return, h1\<lparr>response := response h1 @ error_notice m, loading := False\<rparr>)"
    using one by (simp add: complete_lines_wire process_lines_tsx_append)
  with b have "run_reads_tsx parse D (map Chunk cs @ rest) (AwaitRead c (dec_init D) [], h) =
      stopped (h1\<lparr>response := response h1 @ error_notice m, loading := False\<rparr>)"
    by (intro run_reads_tsx_returned [where t = "wire (before @ [line]) @ beyond"]) simp_all
  then show "run_reads_tsx parse D (map Chunk cs @ rest) (AwaitRead c (dec_init D) [], h) =
      (Settled, h1\<lparr>response := response h1 @ error_notice m, loading := False\<rparr>)"
    by (simp add: stopped_def setLoading_def)
qed

theorem error_payload_stops_witness:
  \<open>startsWith ''data: {"error":"rate limited"}'' ''data: '' \<and>
   payload ''data: {"error":"rate limited"}'' \<noteq> ''[DONE]'' \<and>
   flat_parse (payload ''data: {"error":"rate limited"}'') =
     Inr \<lparr>content = None, done' = None, error = Some ''rate limited''\<rparr> \<and>
   process_lines_tsx flat_parse [] (submitted ''q'') = (Next, submitted ''q'') \<and>
   nl \<notin> set ''data: {"error":"rate limited"}'' \<and>
   delivers ascii_decoder
     [''data: {"error":"rate limited"}'' @ nl # ''data: {"content":"more"}'' @ [nl]]
     (wire ([] @ [''data: {"error":"rate limited"}'']) @ ''data: {"content":"more"}'' @ [nl]) \<and>
   run_reads_tsx flat_parse ascii_decoder
     (map Chunk [''data: {"error":"rate limited"}'' @ nl # ''data: {"content":"more"}'' @ [nl]] @
      [Chunk (''data: {"content":"still more"}'' @ [nl]), EndOfStream])
     (AwaitRead 0 () [], submitted ''q'') =
   (Settled, \<lparr>query = ''q'', response = nl # nl # ''Error: rate limited'', loading = False\<rparr>)\<close>
proof -
  let ?l = \<open>''data: {"error":"rate limited"}''\<close>
  let ?beyond = \<open>''data: {"content":"more"}'' @ [nl]\<close>
  let ?cs = \<open>[?l @ nl # ?beyond]\<close>
  let ?rest = \<open>[Chunk (''data: {"content":"still more"}'' @ [nl]), EndOfStream]\<close>
  have a: "startsWith ?l ''data: ''" by code_simp
  have b: "payload ?l \<noteq> ''[DONE]''" by code_simp
  have c: "flat_parse (payload ?l) =
      Inr \<lparr>content = None, done' = None, error = Some ''rate limited''\<rparr>"
    by code_simp
  have d: "done' \<lparr>content = None, done' = None, error = Some ''rate limited''\<rparr> \<noteq> Some True"
    by simp
  have e: "error \<lparr>content = None, done' = None, error = Some ''rate limited''\<rparr> =
      Some ''rate limited''"
    by simp
  have f: "''rate limited'' \<noteq> []" by simp
  have g: "process_lines_tsx flat_parse [] (submitted ''q'') = (Next, submitted ''q'')" by simp
  have i: "\<forall>x\<in>set ([] @ [?l]). nl \<notin> set x" by code_simp
  have j: "delivers ascii_decoder ?cs (wire ([] @ [?l]) @ ?beyond)" by code_simp
  have k: "dec_init ascii_decoder = ()" by (simp add: ascii_decoder_def)
  from error_payload_stops [where parse = flat_parse and line = ?l and m = "''rate limited''"
      and after = "[]" and h = "submitted ''q''" and before = "[]" and ?h1.0 = "submitted ''q''"
      and beyond = ?beyond and D = ascii_decoder and cs = ?cs and rest = ?rest and c = 0,
      OF a b c d e f] g i j
  have "run_reads_tsx flat_parse ascii_decoder (map Chunk ?cs @ ?rest)
      (AwaitRead 0 () [], submitted ''q'') =
      (Settled, (submitted ''q'')\<lparr>response := response (submitted ''q'') @
         error_notice ''rate limited'', loading := False\<rparr>)"
    unfolding k by blast
  moreover have "nl \<notin> set ?l" by code_simp
  ultimately show ?thesis using a b c g j by (simp add: submitted_def error_notice_def)
qed

text \<open>
  The claim as the specification words it fails on the TypeScript file where the
  \<open>error\<close> field is the empty string: the guard \<open>if (data.error)\<close> is false, no notice
  is appended, \<open>loading\<close> stays true and the next line is processed. It also fails where
  the payload has \<open>done: true\<close> beside its \<open>error\<close>: the stream ends without a notice.
\<close>

theorem empty_error_counterexample:
  \<open>flat_parse (payload ''data: {"error":""}'') =
     Inr \<lparr>content = None, done' = None, error = Some []\<rparr> \<and>
   run_reads_tsx flat_parse ascii_decoder
     [Chunk (''data: {"error":""}'' @ nl # ''data: {"content":"more"}'' @ [nl])]
     (AwaitRead 0 () [], submitted ''q'') =
   (AwaitRead 0 () [], \<lparr>query = ''q'', response = ''more'', loading = True\<rparr>) \<and>
   flat_parse (payload ''data: {"done":true,"error":"x"}'') =
     Inr \<lparr>content = None, done' = Some True, error = Some ''x''\<rparr> \<and>
   run_reads_tsx flat_parse ascii_decoder
     [Chunk (''data: {"done":true,"error":"x"}'' @ [nl])]
     (AwaitRead 0 () [], submitted ''q'') =
   (Settled, \<lparr>query = ''q'', response = [], loading = False\<rparr>)\<close>
  by code_simp

section \<open>Whole streams\<close>

text \<open>
  The TypeScript file is indifferent to the chunking: two ways of cutting the same bytes
  leave the same hooks and the same suspended or returned invocation, whatever the
  reads that follow. The decoder keeps its state between the chunks and \<open>buffer\<close> keeps
  the unfinished line.
\<close>

lemma tsx_chunking_transparent:
  assumes "concat cs = concat cs'"
  shows "run_reads_tsx parse D (map Chunk cs @ rest) (AwaitRead c (dec_init D) [], h) =
     run_reads_tsx parse D (map Chunk cs' @ rest) (AwaitRead c (dec_init D) [], h)"
proof -
  obtain d' t where "decode_stream D (dec_init D) (concat cs) = (d', t)"
    by (cases "decode_stream D (dec_init D) (concat cs)")
  then show ?thesis using assms by (simp add: run_reads_tsx_chunks)
qed

text \<open>
  C2. The JavaScript file decodes every chunk on its own and splits the chunk, not a
  buffer: a line cut by a chunk boundary is two lines to it. The bytes of
  \<open>data: {"content":"a"}\<close> with their line feed append \<open>a\<close> when they come in one
  chunk and nothing when the boundary falls after \<open>{"con\<close>.
\<close>

theorem jsx_chunk_boundary_loses_content:
  \<open>concat [''data: {"con'', ''tent":"a"}'' @ [nl]] = concat [''data: {"content":"a"}'' @ [nl]] \<and>
   run_reads_jsx flat_parse ascii_decoder
     [Chunk (''data: {"content":"a"}'' @ [nl]), EndOfStream] (JsxAwaitRead, submitted ''q'') =
     (JsxSettled, \<lparr>query = ''q'', response = ''a'', loading = True\<rparr>) \<and>
   run_reads_jsx flat_parse ascii_decoder
     [Chunk ''data: {"con'', Chunk (''tent":"a"}'' @ [nl]), EndOfStream]
     (JsxAwaitRead, submitted ''q'') =
     (JsxSettled, \<lparr>query = ''q'', response = [], loading = True\<rparr>)\<close>
  by code_simp

text \<open>
  In the TypeScript file a line with the sentinel or \<open>done: true\<close> returns from
  \<open>handleSubmit\<close>: with the lines before it processed, \<open>loading\<close> is false and nothing
  the stream holds after the line, in the same chunk or in a later one, is looked at.
\<close>

lemma tsx_done_stops:
  assumes "done_line parse line" and "process_lines_tsx parse before h = (Next, h1)"
    and "\<forall>x\<in>set (before @ [line]). nl \<notin> set x"
    and "delivers D cs (wire (before @ [line]) @ beyond)"
  shows "run_reads_tsx parse D (map Chunk cs @ rest) (AwaitRead c (dec_init D) [], h) =
     (Settled, h1\<lparr>loading := False\<rparr>)"
proof -
  have "process_lines_tsx parse (complete_lines (wire (before @ [line]) @ beyond)) h =
      (Return, setLoading False h1)"
    using assms(1-3) by (simp add: complete_lines_wire process_lines_tsx_append process_line_tsx_done)
  with assms(4) have "run_reads_tsx parse D (map Chunk cs @ rest) (AwaitRead c (dec_init D) [], h) =
      stopped (setLoading False h1)"
    by (rule run_reads_tsx_returned)
  then show ?thesis by (simp add: stopped_def setLoading_def)
qed

text \<open>
  C3. In the JavaScript file \<open>break\<close> leaves the loop over the lines of the current
  chunk and the \<open>while\<close> loop reads on: content that arrives in a later chunk is
  appended after \<open>done: true\<close>. The sentinel \<open>[DONE]\<close> is handed to \<open>JSON.parse\<close>, which
  throws, so it neither clears \<open>loading\<close> nor stops anything.
\<close>

theorem jsx_done_does_not_stop:
  \<open>run_reads_jsx flat_parse ascii_decoder
     [Chunk (''data: {"done":true}'' @ [nl]), Chunk (''data: {"content":"late"}'' @ [nl]),
      EndOfStream]
     (JsxAwaitRead, submitted ''q'') =
     (JsxSettled, \<lparr>query = ''q'', response = ''late'', loading = False\<rparr>) \<and>
   run_reads_jsx flat_parse ascii_decoder
     [Chunk (''data: [DONE]'' @ [nl]), Chunk (''data: {"content":"late"}'' @ [nl]), EndOfStream]
     (JsxAwaitRead, submitted ''q'') =
     (JsxSettled, \<lparr>query = ''q'', response = ''late'', loading = True\<rparr>)\<close>
  by code_simp

text \<open>
  In the TypeScript file a stream that ends with no sentinel, no \<open>done: true\<close> and no
  non-empty \<open>error\<close> on any of its complete lines leaves \<open>loading\<close> false and
  \<open>response\<close> extended by the content strings of these lines, in their order.
\<close>

lemma tsx_eof_without_terminal:
  assumes "delivers D cs t" and "\<forall>l\<in>set (complete_lines t). \<not> terminal_line parse l"
  shows "run_reads_tsx parse D (map Chunk cs @ [EndOfStream]) (AwaitRead c (dec_init D) [], h) =
     (Settled, h\<lparr>response := response h @ concat (map (line_content parse) (complete_lines t)),
                 loading := False\<rparr>)"
  using assms
  by (simp add: run_reads_tsx_eof process_lines_tsx_plain stopped_def setLoading_def)

text \<open>
  C4. The JavaScript file leaves the \<open>while\<close> loop at the end of the stream and returns:
  nothing sets \<open>loading\<close> to false. A submit for the query \<open>q\<close>, a response with a body,
  one content line and the end of the stream leave \<open>loading\<close> true.
\<close>

theorem jsx_eof_keeps_loading:
  \<open>jsx_ui (handleSubmit_jsx
      \<lparr>jsx_ui = \<lparr>query = ''q'', response = ''old'', loading = False\<rparr>, jsx_tasks = []\<rparr>) =
     submitted ''q'' \<and>
   after_fetch_jsx (Response True True) (submitted ''q'') = (JsxAwaitRead, submitted ''q'') \<and>
   run_reads_jsx flat_parse ascii_decoder
     [Chunk (''data: {"content":"a"}'' @ [nl]), EndOfStream] (JsxAwaitRead, submitted ''q'') =
     (JsxSettled, \<lparr>query = ''q'', response = ''a'', loading = True\<rparr>)\<close>
  by code_simp

section \<open>One request at a time\<close>




















end
